theory Spec2Isabelle
  imports Complex_Main "HOL-Library.Multiset"
begin

section \<open>Python values\<close>

text \<open>
  The two simulator scripts compute with Python numbers. An \<open>int\<close> is unbounded and a
  \<open>float\<close> is modelled by the real number it stands for, so the arithmetic below is the
  exact arithmetic that the floating-point operations approximate. The tag records
  whether Python holds an \<open>int\<close> or a \<open>float\<close>: \<open>max(30, min(95, h))\<close> returns the
  integer bound itself when it clamps.
\<close>

datatype pynum = PyInt int | PyFloat real

fun num_val :: "pynum \<Rightarrow> real" where
  "num_val (PyInt n) = of_int n"
| "num_val (PyFloat x) = x"

text \<open>\<open>min(a, b)\<close> and \<open>max(a, b)\<close> return the first argument unless the second is
  strictly smaller (larger).\<close>

definition py_min :: "pynum \<Rightarrow> pynum \<Rightarrow> pynum" where
  "py_min a b = (if num_val b < num_val a then b else a)"

definition py_max :: "pynum \<Rightarrow> pynum \<Rightarrow> pynum" where
  "py_max a b = (if num_val a < num_val b then b else a)"

text \<open>\<open>round(x, 2)\<close>: an \<open>int\<close> is returned as it is, a \<open>float\<close> is rounded to two
  decimals, a tie going to the even neighbour.\<close>

definition round_half_even :: "real \<Rightarrow> int" where
  "round_half_even y =
     (if y - of_int \<lfloor>y\<rfloor> < 1 / 2 then \<lfloor>y\<rfloor>
      else if 1 / 2 < y - of_int \<lfloor>y\<rfloor> then \<lfloor>y\<rfloor> + 1
      else if even \<lfloor>y\<rfloor> then \<lfloor>y\<rfloor> else \<lfloor>y\<rfloor> + 1)"

fun py_round2 :: "pynum \<Rightarrow> pynum" where
  "py_round2 (PyInt n) = PyInt n"
| "py_round2 (PyFloat x) = PyFloat (of_int (round_half_even (x * 100)) / 100)"

text \<open>\<open>x % m\<close> on floats with a positive modulus: the result has the sign of \<open>m\<close>.\<close>

definition py_fmod :: "real \<Rightarrow> real \<Rightarrow> real" where
  "py_fmod x m = x - m * of_int \<lfloor>x / m\<rfloor>"

text \<open>\<open>random.uniform(a, b)\<close> is \<open>a + (b - a) * random.random()\<close>; the argument \<open>u\<close>
  is the result of that call of \<open>random.random()\<close>, a number of the interval from 0 to 1.\<close>

definition uniform :: "real \<Rightarrow> real \<Rightarrow> real \<Rightarrow> real" where
  "uniform a b u = a + (b - a) * u"

definition unit_draw :: "real \<Rightarrow> bool" where
  "unit_draw u = (0 \<le> u \<and> u < 1)"

section \<open>Payloads and messages\<close>

datatype json = JNum pynum | JStr string

text \<open>A payload is the dictionary handed to \<open>json.dumps\<close>, in insertion order.\<close>

type_synonym payload = "(string \<times> json) list"

record message =
  topic :: string
  body :: payload
  qos :: nat
  retain :: bool

section \<open>The simulator object\<close>

text \<open>The two scripts: \<open>sensor_simulator.py\<close> and \<open>sensor_simulator1.py\<close>.\<close>

datatype script = Simulator | Simulator1

record sim_state =
  base_temperature :: pynum
  base_humidity :: pynum
  soil_moisture :: pynum
  light_intensity :: pynum
  ph_level :: pynum
  start_time :: real
  connected :: bool

text \<open>\<open>__init__\<close>; the argument is the reading of \<open>time.time()\<close> at construction.\<close>

definition init_state :: "real \<Rightarrow> sim_state" where
  "init_state t0 =
     \<lparr>base_temperature = PyFloat 28, base_humidity = PyFloat 65,
      soil_moisture = PyFloat 50, light_intensity = PyFloat 10000,
      ph_level = PyFloat (13 / 2), start_time = t0, connected = False\<rparr>"

text \<open>
  What one call of a \<open>simulate_*\<close> method reads from outside the object: the clock
  (\<open>time.time()\<close>), the successive results of \<open>random.random()\<close> in the order the call
  draws them, and the text of \<open>datetime.now().isoformat()\<close>.
\<close>

record inputs =
  time_now :: real
  rand :: "nat \<Rightarrow> real"
  stamp :: string

text \<open>\<open>FARM_ID = 1\<close> exists in \<open>sensor_simulator1.py\<close> only.\<close>

definition farm_id :: "script \<Rightarrow> payload" where
  "farm_id v = (case v of Simulator \<Rightarrow> [] | Simulator1 \<Rightarrow> [(''farmId'', JNum (PyInt 1))])"

definition get_time_factor :: "sim_state \<Rightarrow> real \<Rightarrow> real" where
  "get_time_factor s t = py_fmod ((t - start_time s) / 60) 24"

definition simulate_dht22 :: "script \<Rightarrow> sim_state \<Rightarrow> string \<Rightarrow> inputs \<Rightarrow> sim_state \<times> payload" where
  "simulate_dht22 v s device_id inp =
     (let hour = get_time_factor s (time_now inp);
          temp_variation = 5 * sin ((hour - 6) * pi / 12);
          temperature = num_val (base_temperature s) + temp_variation + uniform (- 1) 1 (rand inp 0);
          humidity = num_val (base_humidity s) - temp_variation * 2 + uniform (- 3) 3 (rand inp 1);
          humidity' = py_max (PyInt 30) (py_min (PyInt 95) (PyFloat humidity))
      in (s, farm_id v @
             [(''deviceId'', JStr device_id),
              (''sensorType'', JStr ''DHT22''),
              (''temperature'', JNum (py_round2 (PyFloat temperature))),
              (''humidity'', JNum (py_round2 humidity')),
              (''timestamp'', JStr (stamp inp))]))"

text \<open>Lines 99 to 103 of \<open>simulate_soil_moisture\<close>: the value before it is clamped.\<close>

definition soil_moisture_decayed :: "sim_state \<Rightarrow> inputs \<Rightarrow> real" where
  "soil_moisture_decayed s inp = num_val (soil_moisture s) - uniform (1 / 20) (3 / 20) (rand inp 0)"

definition irrigation_fires :: "inputs \<Rightarrow> bool" where
  "irrigation_fires inp = (rand inp 1 < 1 / 50)"

definition soil_moisture_unclamped :: "sim_state \<Rightarrow> inputs \<Rightarrow> real" where
  "soil_moisture_unclamped s inp =
     (if irrigation_fires inp then soil_moisture_decayed s inp + uniform 15 25 (rand inp 2)
      else soil_moisture_decayed s inp)"

definition simulate_soil_moisture :: "script \<Rightarrow> sim_state \<Rightarrow> string \<Rightarrow> inputs \<Rightarrow> sim_state \<times> payload" where
  "simulate_soil_moisture v s device_id inp =
     (let s' = s\<lparr>soil_moisture :=
                  py_max (PyInt 20) (py_min (PyInt 70) (PyFloat (soil_moisture_unclamped s inp)))\<rparr>
      in (s', farm_id v @
              [(''deviceId'', JStr device_id),
               (''sensorType'', JStr ''SOIL_MOISTURE''),
               (''soilMoisture'', JNum (py_round2 (soil_moisture s'))),
               (''timestamp'', JStr (stamp inp))]))"

definition simulate_light_sensor :: "script \<Rightarrow> sim_state \<Rightarrow> string \<Rightarrow> inputs \<Rightarrow> sim_state \<times> payload" where
  "simulate_light_sensor v s device_id inp =
     (let hour = get_time_factor s (time_now inp);
          light = (if 6 \<le> hour \<and> hour \<le> 18
                   then 50000 * sin ((hour - 6) * pi / 12) + uniform (- 2000) 2000 (rand inp 0)
                   else uniform 0 100 (rand inp 0));
          s' = s\<lparr>light_intensity := py_max (PyInt 0) (PyFloat light)\<rparr>
      in (s', farm_id v @
              [(''deviceId'', JStr device_id),
               (''sensorType'', JStr ''LIGHT''),
               (''lightIntensity'', JNum (py_round2 (light_intensity s'))),
               (''timestamp'', JStr (stamp inp))]))"

text \<open>The pH reading is the method on which the scripts differ: the field is \<open>ph\<close> in
  \<open>sensor_simulator.py\<close> and \<open>soilPH\<close>, without \<open>farmId\<close>, in \<open>sensor_simulator1.py\<close>.\<close>

definition simulate_ph_sensor :: "script \<Rightarrow> sim_state \<Rightarrow> string \<Rightarrow> inputs \<Rightarrow> sim_state \<times> payload" where
  "simulate_ph_sensor v s device_id inp =
     (let s' = s\<lparr>ph_level :=
                  py_max (PyFloat (11 / 2))
                    (py_min (PyFloat (15 / 2))
                       (PyFloat (num_val (ph_level s) + uniform (- (1 / 50)) (1 / 50) (rand inp 0))))\<rparr>
      in (s', [(''deviceId'', JStr device_id),
               (''sensorType'', JStr ''PH''),
               (case v of Simulator \<Rightarrow> ''ph'' | Simulator1 \<Rightarrow> ''soilPH'',
                JNum (py_round2 (ph_level s'))),
               (''timestamp'', JStr (stamp inp))]))"

section \<open>Connecting to the broker\<close>

text \<open>
  The network thread of the MQTT client runs the callbacks \<open>on_connect\<close> and
  \<open>on_disconnect\<close> on the simulator object while \<open>connect\<close> polls the flag
  \<open>self.connected\<close>. The environment of one call of \<open>connect\<close> says whether
  \<open>client.connect\<close> or \<open>loop_start\<close> raises, which callbacks have run before each read
  of the flag (the reads are numbered from 0), and what \<open>time.time()\<close> returns at each
  of its calls (numbered from 0).
\<close>

datatype callback = OnConnect int | OnDisconnect int

definition on_connect :: "bool \<Rightarrow> int \<Rightarrow> bool" where
  "on_connect c rc = (if rc = 0 then True else c)"

definition on_disconnect :: "bool \<Rightarrow> int \<Rightarrow> bool" where
  "on_disconnect c rc = False"

fun deliver :: "bool \<Rightarrow> callback list \<Rightarrow> bool" where
  "deliver c [] = c"
| "deliver c (OnConnect rc # cbs) = deliver (on_connect c rc) cbs"
| "deliver c (OnDisconnect rc # cbs) = deliver (on_disconnect c rc) cbs"

record conn_env =
  connect_raises :: bool
  callbacks :: "nat \<Rightarrow> callback list"
  clock :: "nat \<Rightarrow> real"

text \<open>The loop condition on the clock: \<open>(time.time() - start) < timeout\<close> in
  \<open>sensor_simulator.py\<close>, \<open>time.time() < deadline\<close> in \<open>sensor_simulator1.py\<close>, with a
  timeout of 10 seconds.\<close>

definition within_timeout :: "script \<Rightarrow> real \<Rightarrow> real \<Rightarrow> bool" where
  "within_timeout v start t =
     (case v of Simulator \<Rightarrow> t - start < 10 | Simulator1 \<Rightarrow> t < start + 10)"

text \<open>
  The polling loop \<open>while not self.connected and ...: time.sleep(0.1)\<close>, at its
  \<open>i\<close>-th test, with \<open>c\<close> the flag as the previous read left it. It returns the number
  of tests made and the flag as the last test read it; it does not return while the
  flag stays down and the clock stays within the timeout.
\<close>

partial_function (option) wait_loop ::
  "script \<Rightarrow> conn_env \<Rightarrow> real \<Rightarrow> bool \<Rightarrow> nat \<Rightarrow> (nat \<times> bool) option" where
  "wait_loop v e start c i =
     (if \<not> deliver c (callbacks e i) \<and> within_timeout v start (clock e (Suc i))
      then wait_loop v e start (deliver c (callbacks e i)) (Suc i)
      else Some (Suc i, deliver c (callbacks e i)))"

text \<open>\<open>connect\<close>: the result and the object; \<open>return self.connected\<close> reads the flag once
  more after the loop.\<close>

definition connect :: "script \<Rightarrow> conn_env \<Rightarrow> sim_state \<Rightarrow> (bool \<times> sim_state) option" where
  "connect v e s =
     (if connect_raises e then Some (False, s)
      else (case wait_loop v e (clock e 0) (connected s) 0 of
              None \<Rightarrow> None
            | Some (n, c) \<Rightarrow>
                Some (deliver c (callbacks e n), s\<lparr>connected := deliver c (callbacks e n)\<rparr>)))"

section \<open>Publishing\<close>

definition publish_sensor_data :: "string \<Rightarrow> payload \<Rightarrow> message" where
  "publish_sensor_data device_id data =
     \<lparr>topic = ''sensor/'' @ device_id @ ''/data'', body = data, qos = 1, retain = False\<rparr>"

definition publish_device_status :: "script \<Rightarrow> string \<Rightarrow> string \<Rightarrow> string \<Rightarrow> message" where
  "publish_device_status v device_id status ts =
     \<lparr>topic = ''device/'' @ device_id @ ''/status'',
      body = farm_id v @
        [(''deviceId'', JStr device_id), (''status'', JStr status), (''timestamp'', JStr ts)],
      qos = 1, retain = False\<rparr>"

section \<open>The run loop\<close>

text \<open>A device of the roster is a dictionary; \<open>d["id"]\<close> raises \<open>KeyError\<close> on a
  dictionary without the key.\<close>

type_synonym device = "string \<rightharpoonup> string"

datatype error = KeyError string

text \<open>The chain \<open>if ... elif ... else: continue\<close> on the sensor kind.\<close>

definition dispatch ::
  "script \<Rightarrow> string \<Rightarrow> (sim_state \<Rightarrow> string \<Rightarrow> inputs \<Rightarrow> sim_state \<times> payload) option" where
  "dispatch v t =
     (if t = ''DHT22'' then Some (simulate_dht22 v)
      else if t = ''SOIL_MOISTURE'' then Some (simulate_soil_moisture v)
      else if t = ''LIGHT'' then Some (simulate_light_sensor v)
      else if t = ''PH'' then Some (simulate_ph_sensor v)
      else None)"

text \<open>
  The body of \<open>for device in devices\<close>: the new object and the messages published (one
  or none). \<open>sensor_simulator.py\<close> reads \<open>device["id"]\<close> and \<open>device["type"]\<close> first;
  \<open>sensor_simulator1.py\<close> reads \<open>d["type"]\<close> and then \<open>d["id"]\<close> in the branch taken.
\<close>

definition device_step ::
  "script \<Rightarrow> sim_state \<Rightarrow> device \<Rightarrow> inputs \<Rightarrow> error + sim_state \<times> message list" where
  "device_step v s d inp =
     (case v of
        Simulator \<Rightarrow>
          (case d ''id'' of
             None \<Rightarrow> Inl (KeyError ''id'')
           | Some device_id \<Rightarrow>
               (case d ''type'' of
                  None \<Rightarrow> Inl (KeyError ''type'')
                | Some device_type \<Rightarrow>
                    (case dispatch v device_type of
                       None \<Rightarrow> Inr (s, [])
                     | Some simulate \<Rightarrow>
                         Inr (fst (simulate s device_id inp),
                              [publish_sensor_data device_id (snd (simulate s device_id inp))]))))
      | Simulator1 \<Rightarrow>
          (case d ''type'' of
             None \<Rightarrow> Inl (KeyError ''type'')
           | Some t \<Rightarrow>
               (case dispatch v t of
                  None \<Rightarrow> Inr (s, [])
                | Some simulate \<Rightarrow>
                    (case d ''id'' of
                       None \<Rightarrow> Inl (KeyError ''id'')
                     | Some device_id \<Rightarrow>
                         Inr (fst (simulate s device_id inp),
                              [publish_sensor_data device_id (snd (simulate s device_id inp))])))))"

text \<open>The loop \<open>for device in devices\<close> of one tick, each device with the inputs its
  step reads: the object, the messages published, and the exception that ended the loop
  early, if one did.\<close>

fun device_loop ::
  "script \<Rightarrow> sim_state \<Rightarrow> (device \<times> inputs) list \<Rightarrow> sim_state \<times> message list \<times> error option" where
  "device_loop v s [] = (s, [], None)"
| "device_loop v s ((d, inp) # rest) =
     (case device_step v s d inp of
        Inl err \<Rightarrow> (s, [], Some err)
      | Inr (s', ms) \<Rightarrow>
          (case device_loop v s' rest of (s'', ms', r) \<Rightarrow> (s'', ms @ ms', r)))"

text \<open>
  What the run loop reads from outside: the inputs of the step of device \<open>j\<close> in tick
  \<open>i\<close>, and the timestamps of the status messages.
\<close>

record run_env =
  tick_inputs :: "nat \<Rightarrow> nat \<Rightarrow> inputs"
  online_stamp :: "nat \<Rightarrow> string"
  offline_stamp :: "nat \<Rightarrow> string"

definition tick :: "script \<Rightarrow> run_env \<Rightarrow> sim_state \<Rightarrow> device list \<Rightarrow> nat \<Rightarrow> nat \<Rightarrow>
    sim_state \<times> message list \<times> error option" where
  "tick v r s devices i k =
     device_loop v s (take k (zip devices (map (tick_inputs r i) [0..<length devices])))"

text \<open>\<open>n\<close> whole iterations of \<open>while True\<close>, the first of them iteration \<open>i\<close>.\<close>

fun ticks :: "script \<Rightarrow> run_env \<Rightarrow> sim_state \<Rightarrow> device list \<Rightarrow> nat \<Rightarrow> nat \<Rightarrow>
    sim_state \<times> message list \<times> error option" where
  "ticks v r s devices i 0 = (s, [], None)"
| "ticks v r s devices i (Suc n) =
     (case tick v r s devices i (length devices) of
        (s', ms, Some err) \<Rightarrow> (s', ms, Some err)
      | (s', ms, None) \<Rightarrow>
          (case ticks v r s' devices (Suc i) n of (s'', ms', res) \<Rightarrow> (s'', ms @ ms', res)))"

text \<open>The loops \<open>for device in devices: self.publish_device_status(device["id"], ...)\<close>.\<close>

fun status_loop ::
  "script \<Rightarrow> string \<Rightarrow> (nat \<Rightarrow> string) \<Rightarrow> nat \<Rightarrow> device list \<Rightarrow> message list \<times> error option" where
  "status_loop v status ts j [] = ([], None)"
| "status_loop v status ts j (d # ds) =
     (case d ''id'' of
        None \<Rightarrow> ([], Some (KeyError ''id''))
      | Some device_id \<Rightarrow>
          (case status_loop v status ts (Suc j) ds of
             (ms, res) \<Rightarrow> (publish_device_status v device_id status (ts j) # ms, res)))"

datatype outcome = ConnectFailed | Crashed error | Stopped

text \<open>
  \<open>run_simulation\<close> for a run that \<open>KeyboardInterrupt\<close> stops inside the \<open>try\<close> block
  after \<open>n\<close> whole iterations and \<open>k\<close> device steps of the next one (\<open>k\<close> at least the
  length of the roster: during the sleep of that iteration). The result is how the
  call ended and the messages handed to \<open>client.publish\<close>, in order; it is \<open>None\<close> when
  \<open>connect\<close> does not return. Without the interrupt the loop does not end.
\<close>

definition run_simulation ::
  "script \<Rightarrow> conn_env \<Rightarrow> run_env \<Rightarrow> sim_state \<Rightarrow> device list \<Rightarrow> nat \<Rightarrow> nat \<Rightarrow>
     (outcome \<times> message list) option" where
  "run_simulation v e r s devices n k =
     (case connect v e s of
        None \<Rightarrow> None
      | Some (False, s0) \<Rightarrow> Some (ConnectFailed, [])
      | Some (True, s0) \<Rightarrow>
          (case status_loop v ''ONLINE'' (online_stamp r) 0 devices of
             (on, Some err) \<Rightarrow> Some (Crashed err, on)
           | (on, None) \<Rightarrow>
               (case ticks v r s0 devices 0 n of
                  (s1, ms, Some err) \<Rightarrow> Some (Crashed err, on @ ms)
                | (s1, ms, None) \<Rightarrow>
                    (case tick v r s1 devices n k of
                       (s2, ms', Some err) \<Rightarrow> Some (Crashed err, on @ ms @ ms')
                     | (s2, ms', None) \<Rightarrow>
                         (case status_loop v ''OFFLINE'' (offline_stamp r) 0 devices of
                            (off, Some err) \<Rightarrow> Some (Crashed err, on @ ms @ ms' @ off)
                          | (off, None) \<Rightarrow> Some (Stopped, on @ ms @ ms' @ off))))))"

text \<open>The rosters that \<open>main\<close> passes to \<open>run_simulation\<close> in the two scripts.\<close>

definition main_devices :: "script \<Rightarrow> device list" where
  "main_devices v =
     (case v of
        Simulator \<Rightarrow>
          [[''id'' \<mapsto> ''DHT22-001'', ''type'' \<mapsto> ''DHT22'', ''location'' \<mapsto> ''Garden A''],
           [''id'' \<mapsto> ''DHT22-002'', ''type'' \<mapsto> ''DHT22'', ''location'' \<mapsto> ''Garden B''],
           [''id'' \<mapsto> ''SOIL-001'', ''type'' \<mapsto> ''SOIL_MOISTURE'', ''location'' \<mapsto> ''Garden A''],
           [''id'' \<mapsto> ''SOIL-002'', ''type'' \<mapsto> ''SOIL_MOISTURE'', ''location'' \<mapsto> ''Garden B''],
           [''id'' \<mapsto> ''LIGHT-001'', ''type'' \<mapsto> ''LIGHT'', ''location'' \<mapsto> ''Garden A''],
           [''id'' \<mapsto> ''PH-001'', ''type'' \<mapsto> ''PH'', ''location'' \<mapsto> ''Garden A'']]
      | Simulator1 \<Rightarrow>
          [[''id'' \<mapsto> ''DHT22-0001'', ''type'' \<mapsto> ''DHT22'', ''location'' \<mapsto> ''Zone A''],
           [''id'' \<mapsto> ''DHT22-0002'', ''type'' \<mapsto> ''DHT22'', ''location'' \<mapsto> ''Zone B''],
           [''id'' \<mapsto> ''SOIL-0001'', ''type'' \<mapsto> ''SOIL_MOISTURE'', ''location'' \<mapsto> ''Zone A''],
           [''id'' \<mapsto> ''SOIL-0002'', ''type'' \<mapsto> ''SOIL_MOISTURE'', ''location'' \<mapsto> ''Zone B''],
           [''id'' \<mapsto> ''LIGHT-0001'', ''type'' \<mapsto> ''LIGHT'', ''location'' \<mapsto> ''Zone A''],
           [''id'' \<mapsto> ''PH-0001'', ''type'' \<mapsto> ''PH'', ''location'' \<mapsto> ''Zone A'']])"

section \<open>Sample environments\<close>

text \<open>A broker that acknowledges the connection before the first read of the flag, and
  one that refuses it (return code 5) while the clock advances by 4 seconds from one
  reading to the next.\<close>

definition accepting_broker :: conn_env where
  "accepting_broker =
     \<lparr>connect_raises = False, callbacks = (\<lambda>j. if j = 0 then [OnConnect 0] else []),
      clock = (\<lambda>j. 0)\<rparr>"


text \<open>Inputs of a step at the given clock reading whose draws are all \<open>u\<close>.\<close>

definition constant_inputs :: "real \<Rightarrow> real \<Rightarrow> inputs" where
  "constant_inputs t u = \<lparr>time_now = t, rand = (\<lambda>j. u), stamp = ''2025-01-01T00:00:00''\<rparr>"

text \<open>Inputs of a soil-moisture step that irrigates: the draw for the decay is 1/2, the
  draw of the irrigation test and the draw for the jump are 0.\<close>

definition irrigating_inputs :: inputs where
  "irrigating_inputs =
     \<lparr>time_now = 0, rand = (\<lambda>j. if j = 0 then 1 / 2 else 0), stamp = ''2025-01-01T00:00:00''\<rparr>"

definition steady_run :: run_env where
  "steady_run =
     \<lparr>tick_inputs = (\<lambda>i j. constant_inputs 360 (1 / 2)),
      online_stamp = (\<lambda>j. ''2025-01-01T00:00:00''),
      offline_stamp = (\<lambda>j. ''2025-01-01T00:00:00'')\<rparr>"

section \<open>Notions the properties are stated with\<close>

text \<open>The objects a run can hold: the one \<open>__init__\<close> builds, and what \<open>connect\<close> and
  the steps of the run loop make of it.\<close>

inductive reachable :: "script \<Rightarrow> sim_state \<Rightarrow> bool" for v :: script where
  reach_init: "reachable v (init_state t0)"
| reach_connect: "reachable v s \<Longrightarrow> connect v e s = Some (b, s') \<Longrightarrow> reachable v s'"
| reach_step: "reachable v s \<Longrightarrow> device_step v s d inp = Inr (s', ms) \<Longrightarrow> reachable v s'"

text \<open>What holds of every object a run can hold: the base values are those of
  \<open>__init__\<close> and the clamped fields are within their bounds.\<close>

definition state_inv :: "sim_state \<Rightarrow> bool" where
  "state_inv s =
     (base_temperature s = PyFloat 28 \<and> base_humidity s = PyFloat 65 \<and>
      20 \<le> num_val (soil_moisture s) \<and> num_val (soil_moisture s) \<le> 70 \<and>
      0 \<le> num_val (light_intensity s) \<and>
      11 / 2 \<le> num_val (ph_level s) \<and> num_val (ph_level s) \<le> 15 / 2)"

text \<open>The declared physical ranges of the bounded measurements, on one field of a
  payload: humidity 30 to 95, soil moisture 20 to 70, pH 5.5 to 7.5, light at least 0.\<close>

fun in_physical_range :: "string \<times> json \<Rightarrow> bool" where
  "in_physical_range (k, JNum x) =
     (if k = ''humidity'' then 30 \<le> num_val x \<and> num_val x \<le> 95
      else if k = ''soilMoisture'' then 20 \<le> num_val x \<and> num_val x \<le> 70
      else if k = ''ph'' \<or> k = ''soilPH'' then 11 / 2 \<le> num_val x \<and> num_val x \<le> 15 / 2
      else if k = ''lightIntensity'' then 0 \<le> num_val x
      else True)"
| "in_physical_range (k, JStr t) =
     (k \<noteq> ''humidity'' \<and> k \<noteq> ''soilMoisture'' \<and> k \<noteq> ''ph'' \<and> k \<noteq> ''soilPH'' \<and>
      k \<noteq> ''lightIntensity'')"

text \<open>Every field of every message of a trace is within its range.\<close>

definition messages_in_range :: "message list \<Rightarrow> bool" where
  "messages_in_range ms = list_all (\<lambda>m. list_all in_physical_range (body m)) ms"

text \<open>The number a payload carries under a field name (0 for a payload without such a
  number).\<close>

definition published :: "payload \<Rightarrow> string \<Rightarrow> real" where
  "published p k = (case map_of p k of Some (JNum x) \<Rightarrow> num_val x | _ \<Rightarrow> 0)"

text \<open>
  A distribution of the result of \<open>random.random()\<close> with finite support: pairs of a
  weight and a draw, the weights non-negative with sum 1. The generator of Python is
  one of them (equal weights on the multiples of \<open>2\<^sup>-\<^sup>5\<^sup>3\<close> below 1).
\<close>

definition distribution :: "(real \<times> real) list \<Rightarrow> bool" where
  "distribution ps =
     (list_all (\<lambda>(w, u). 0 \<le> w \<and> unit_draw u) ps \<and> sum_list (map fst ps) = 1)"

definition expectation :: "(real \<times> real) list \<Rightarrow> (real \<Rightarrow> real) \<Rightarrow> real" where
  "expectation ps f = sum_list (map (\<lambda>(w, u). w * f u) ps)"

text \<open>The probability of an event of the draw, and the distribution of \<open>n\<close> equally
  likely draws, the multiples of \<open>1/n\<close> below 1 (\<open>random.random()\<close> has \<open>n = 2\<^sup>5\<^sup>3\<close>).\<close>

definition probability :: "(real \<times> real) list \<Rightarrow> (real \<Rightarrow> bool) \<Rightarrow> real" where
  "probability ps E = expectation ps (\<lambda>u. if E u then 1 else 0)"

definition equally_likely :: "nat \<Rightarrow> (real \<times> real) list" where
  "equally_likely n = map (\<lambda>k. (1 / real n, real k / real n)) [0..<n]"

text \<open>The device identifiers of the status messages of a trace that carry a given
  status, in the order of the trace.\<close>

definition status_ids :: "string \<Rightarrow> message list \<Rightarrow> json option list" where
  "status_ids status trace =
     map (\<lambda>m. map_of (body m) ''deviceId'')
       (filter (\<lambda>m. map_of (body m) ''status'' = Some (JStr status)) trace)"

definition roster_ids :: "device list \<Rightarrow> json option list" where
  "roster_ids devices = map (\<lambda>d. map_option JStr (d ''id'')) devices"

section \<open>Rounding and clamping\<close>

lemma round_half_even_bounds:
  "of_int (round_half_even y) \<le> y + 1 / 2" "y - 1 / 2 \<le> of_int (round_half_even y)"
  unfolding round_half_even_def by (auto; linarith)+

lemma round_half_even_of_int [simp]: "round_half_even (of_int n) = n"
  by (simp add: round_half_even_def)

lemma round_half_even_mono:
  assumes "x \<le> y"
  shows "round_half_even x \<le> round_half_even y"
proof (rule ccontr)
  assume "\<not> round_half_even x \<le> round_half_even y"
  then have lt: "round_half_even y + 1 \<le> round_half_even x" by simp
  have fl: "\<lfloor>x\<rfloor> \<le> \<lfloor>y\<rfloor>" using assms by (rule floor_mono)
  have cases_x: "round_half_even x = \<lfloor>x\<rfloor> \<or> round_half_even x = \<lfloor>x\<rfloor> + 1"
    by (simp add: round_half_even_def)
  have cases_y: "round_half_even y = \<lfloor>y\<rfloor> \<or> round_half_even y = \<lfloor>y\<rfloor> + 1"
    by (simp add: round_half_even_def)
  from lt fl cases_x cases_y
  have eqs: "\<lfloor>x\<rfloor> = \<lfloor>y\<rfloor>" "round_half_even x = \<lfloor>x\<rfloor> + 1" "round_half_even y = \<lfloor>y\<rfloor>"
    by linarith+
  from eqs(2) have x_hi: "1 / 2 \<le> x - of_int \<lfloor>x\<rfloor>"
    by (auto simp: round_half_even_def split: if_splits)
  from eqs(3) have y_lo: "y - of_int \<lfloor>y\<rfloor> \<le> 1 / 2"
    by (auto simp: round_half_even_def split: if_splits)
  from x_hi y_lo eqs(1) assms have tie: "x - of_int \<lfloor>x\<rfloor> = 1 / 2" "y - of_int \<lfloor>y\<rfloor> = 1 / 2"
    by simp_all
  from tie eqs show False
    by (auto simp: round_half_even_def split: if_splits)
qed

lemma round2_lower:
  assumes "of_int a / 100 \<le> x"
  shows "of_int a / 100 \<le> (of_int (round_half_even (x * 100)) / 100 :: real)"
proof -
  have "(of_int a :: real) \<le> x * 100" using assms by simp
  then have "round_half_even (of_int a) \<le> round_half_even (x * 100)"
    by (rule round_half_even_mono)
  then have "a \<le> round_half_even (x * 100)"
    by (simp only: round_half_even_of_int)
  then have "(of_int a :: real) \<le> of_int (round_half_even (x * 100))"
    by (simp only: of_int_le_iff)
  then show ?thesis by simp
qed

lemma round2_upper:
  assumes "x \<le> of_int a / 100"
  shows "(of_int (round_half_even (x * 100)) / 100 :: real) \<le> of_int a / 100"
proof -
  have "x * 100 \<le> (of_int a :: real)" using assms by simp
  then have "round_half_even (x * 100) \<le> round_half_even (of_int a)"
    by (rule round_half_even_mono)
  then have "round_half_even (x * 100) \<le> a"
    by (simp only: round_half_even_of_int)
  then have "(of_int (round_half_even (x * 100)) :: real) \<le> of_int a"
    by (simp only: of_int_le_iff)
  then show ?thesis by simp
qed

text \<open>Rounding to two decimals keeps a number between bounds that are multiples of
  one hundredth.\<close>

lemma py_round2_lower:
  assumes "of_int a / 100 \<le> num_val p"
  shows "of_int a / 100 \<le> num_val (py_round2 p)"
proof (cases p)
  case (PyInt n)
  with assms show ?thesis by simp
next
  case (PyFloat x)
  with assms have "of_int a / 100 \<le> x" by simp
  from round2_lower [OF this] show ?thesis
    by (simp only: PyFloat py_round2.simps num_val.simps)
qed

lemma py_round2_upper:
  assumes "num_val p \<le> of_int a / 100"
  shows "num_val (py_round2 p) \<le> of_int a / 100"
proof (cases p)
  case (PyInt n)
  with assms show ?thesis by simp
next
  case (PyFloat x)
  with assms have "x \<le> of_int a / 100" by simp
  from round2_upper [OF this] show ?thesis
    by (simp only: PyFloat py_round2.simps num_val.simps)
qed

lemma clamp_lower: "num_val lo \<le> num_val (py_max lo x)"
  by (simp add: py_max_def)

lemma clamp_upper:
  assumes "num_val lo \<le> num_val hi"
  shows "num_val (py_max lo (py_min hi x)) \<le> num_val hi"
  using assms by (simp add: py_max_def py_min_def)

section \<open>The simulated hour\<close>

lemma py_fmod_range:
  assumes "0 < m"
  shows "0 \<le> py_fmod x m" "py_fmod x m < m"
proof -
  have xm: "x / m * m = x" using assms by simp
  have "of_int \<lfloor>x / m\<rfloor> * m \<le> x / m * m"
    using assms by (intro mult_right_mono) simp_all
  with xm have "of_int \<lfloor>x / m\<rfloor> * m \<le> x" by (simp only:)
  then show "0 \<le> py_fmod x m" by (simp add: py_fmod_def mult.commute)
  have "x / m < of_int \<lfloor>x / m\<rfloor> + 1" by linarith
  then have "x / m * m < (of_int \<lfloor>x / m\<rfloor> + 1) * m"
    using assms by (rule mult_strict_right_mono)
  with xm have "x < (of_int \<lfloor>x / m\<rfloor> + 1) * m" by (simp only:)
  then show "py_fmod x m < m" by (simp add: py_fmod_def algebra_simps)
qed

lemma py_fmod_period:
  assumes "0 < m"
  shows "py_fmod (x + m) m = py_fmod x m"
proof -
  have "(x + m) / m = x / m + 1" using assms by (simp add: add_divide_distrib)
  then have "\<lfloor>(x + m) / m\<rfloor> = \<lfloor>x / m\<rfloor> + 1" by simp
  then show ?thesis by (simp add: py_fmod_def algebra_simps)
qed

lemma py_fmod_small:
  assumes "0 \<le> x" "x < m"
  shows "py_fmod x m = x"
proof -
  from assms have "0 \<le> x / m" "x / m < 1" by simp_all
  then have "\<lfloor>x / m\<rfloor> = 0" by (simp add: floor_eq_iff)
  then show ?thesis by (simp add: py_fmod_def)
qed

text \<open>
  C5. For every elapsed time \<open>t - start_time s\<close> in seconds, the simulated hour is
  \<open>(elapsed / 60) mod 24\<close>: it lies from 0 up to but excluding 24, it differs from
  \<open>elapsed / 60\<close> by a whole multiple of 24, 24 minutes later it is the same again,
  and during the first 24 minutes it is \<open>elapsed / 60\<close> itself (one minute of real time
  is one simulated hour).
\<close>

theorem get_time_factor_hour_of_day:
  "0 \<le> get_time_factor s t \<and> get_time_factor s t < 24 \<and>
   (\<exists>k::int. (t - start_time s) / 60 = get_time_factor s t + 24 * of_int k) \<and>
   get_time_factor s (t + 24 * 60) = get_time_factor s t \<and>
   (0 \<le> t - start_time s \<and> t - start_time s < 24 * 60 \<longrightarrow>
      get_time_factor s t = (t - start_time s) / 60)"
proof (intro conjI impI)
  show "0 \<le> get_time_factor s t" "get_time_factor s t < 24"
    by (simp_all add: get_time_factor_def py_fmod_range)
  show "\<exists>k::int. (t - start_time s) / 60 = get_time_factor s t + 24 * of_int k"
    by (rule exI [of _ "\<lfloor>(t - start_time s) / 60 / 24\<rfloor>"])
       (simp add: get_time_factor_def py_fmod_def)
  have "(t + 24 * 60 - start_time s) / 60 = (t - start_time s) / 60 + 24"
    by (simp add: field_simps)
  then show "get_time_factor s (t + 24 * 60) = get_time_factor s t"
    unfolding get_time_factor_def by (simp only: py_fmod_period [of 24, simplified])
next
  assume "0 \<le> t - start_time s \<and> t - start_time s < 24 * 60"
  then have "0 \<le> (t - start_time s) / 60" "(t - start_time s) / 60 < 24" by simp_all
  then show "get_time_factor s t = (t - start_time s) / 60"
    unfolding get_time_factor_def by (rule py_fmod_small)
qed

theorem get_time_factor_hour_of_day_witness:
  "0 \<le> (750::real) - start_time (init_state 30) \<and>
   (750::real) - start_time (init_state 30) < 24 * 60 \<and>
   get_time_factor (init_state 30) 750 = 12 \<and>
   get_time_factor (init_state 30) (750 + 24 * 60) = 12"
  using get_time_factor_hour_of_day [of "init_state 30" 750]
  by (simp add: init_state_def)

section \<open>Readings stay within the physical ranges\<close>

lemma round_clamp_range:
  assumes "num_val lo = of_int a / 100" "num_val hi = of_int b / 100" "a \<le> b"
  shows "num_val lo \<le> num_val (py_round2 (py_max lo (py_min hi x)))"
    and "num_val (py_round2 (py_max lo (py_min hi x))) \<le> num_val hi"
proof -
  have le: "num_val lo \<le> num_val hi" using assms by simp
  have "of_int a / 100 \<le> num_val (py_max lo (py_min hi x))"
    using clamp_lower [of lo "py_min hi x"] assms(1) by simp
  from py_round2_lower [OF this] show "num_val lo \<le> num_val (py_round2 (py_max lo (py_min hi x)))"
    using assms(1) by simp
  have "num_val (py_max lo (py_min hi x)) \<le> of_int b / 100"
    using clamp_upper [OF le, of x] assms(2) by simp
  from py_round2_upper [OF this] show "num_val (py_round2 (py_max lo (py_min hi x))) \<le> num_val hi"
    using assms(2) by simp
qed

lemma round_floor_range: "0 \<le> num_val (py_round2 (py_max (PyInt 0) x))"
proof -
  have "of_int 0 / 100 \<le> num_val (py_max (PyInt 0) x)"
    using clamp_lower [of "PyInt 0" x] by simp
  from py_round2_lower [OF this] show ?thesis by simp
qed

lemma farm_id_in_range: "list_all in_physical_range (farm_id v)"
  by (cases v) (simp_all add: farm_id_def)

lemma simulate_dht22_in_range: "list_all in_physical_range (snd (simulate_dht22 v s i inp))"
  using round_clamp_range [of "PyInt 30" 3000 "PyInt 95" 9500]
  by (simp add: simulate_dht22_def Let_def farm_id_in_range)

lemma simulate_soil_moisture_in_range:
  "list_all in_physical_range (snd (simulate_soil_moisture v s i inp))"
  using round_clamp_range [of "PyInt 20" 2000 "PyInt 70" 7000]
  by (simp add: simulate_soil_moisture_def Let_def farm_id_in_range)

lemma simulate_light_sensor_in_range:
  "list_all in_physical_range (snd (simulate_light_sensor v s i inp))"
  using round_floor_range
  by (simp add: simulate_light_sensor_def Let_def farm_id_in_range)

lemma simulate_ph_sensor_in_range:
  "list_all in_physical_range (snd (simulate_ph_sensor v s i inp))"
  using round_clamp_range [of "PyFloat (11 / 2)" 550 "PyFloat (15 / 2)" 750]
  by (cases v) (simp_all add: simulate_ph_sensor_def Let_def)

lemma dispatch_in_range:
  assumes "dispatch v t = Some f"
  shows "list_all in_physical_range (snd (f s i inp))"
  using assms
  by (auto simp: dispatch_def simulate_dht22_in_range simulate_soil_moisture_in_range
      simulate_light_sensor_in_range simulate_ph_sensor_in_range split: if_splits)

lemma messages_in_range_append [simp]:
  "messages_in_range (xs @ ys) = (messages_in_range xs \<and> messages_in_range ys)"
  by (simp add: messages_in_range_def)

lemma messages_in_range_Nil [simp]: "messages_in_range []"
  by (simp add: messages_in_range_def)

lemma device_step_in_range:
  assumes "device_step v s d inp = Inr (s', ms)"
  shows "messages_in_range ms"
  using assms
  by (cases v)
     (auto simp: device_step_def messages_in_range_def publish_sensor_data_def dispatch_in_range
           split: option.splits)

lemma device_loop_in_range:
  assumes "device_loop v s xs = (s', ms, res)"
  shows "messages_in_range ms"
  using assms
proof (induction xs arbitrary: s s' ms res)
  case Nil
  then show ?case by simp
next
  case (Cons x xs)
  obtain d inp where x: "x = (d, inp)" by (cases x)
  show ?case
  proof (cases "device_step v s d inp")
    case (Inl err)
    with Cons.prems x show ?thesis by simp
  next
    case (Inr p)
    obtain s1 ms1 where p: "p = (s1, ms1)" by (cases p)
    obtain s2 ms2 r2 where rest: "device_loop v s1 xs = (s2, ms2, r2)"
      by (cases "device_loop v s1 xs")
    from Cons.prems x Inr p rest have ms: "ms = ms1 @ ms2" by simp
    from Inr p have "messages_in_range ms1" by (simp add: device_step_in_range)
    moreover from rest have "messages_in_range ms2" by (rule Cons.IH)
    ultimately show ?thesis using ms by simp
  qed
qed

lemma tick_in_range:
  assumes "tick v r s devices i k = (s', ms, res)"
  shows "messages_in_range ms"
  using assms unfolding tick_def by (rule device_loop_in_range)

lemma ticks_in_range:
  assumes "ticks v r s devices i n = (s', ms, res)"
  shows "messages_in_range ms"
  using assms
proof (induction n arbitrary: s i s' ms res)
  case 0
  then show ?case by simp
next
  case (Suc n)
  obtain s1 ms1 r1 where t: "tick v r s devices i (length devices) = (s1, ms1, r1)"
    by (cases "tick v r s devices i (length devices)")
  then have one: "messages_in_range ms1" by (rule tick_in_range)
  show ?case
  proof (cases r1)
    case (Some err)
    with Suc.prems t one show ?thesis by simp
  next
    case None
    obtain s2 ms2 r2 where rest: "ticks v r s1 devices (Suc i) n = (s2, ms2, r2)"
      by (cases "ticks v r s1 devices (Suc i) n")
    from Suc.prems t None rest have "ms = ms1 @ ms2" by simp
    moreover from rest have "messages_in_range ms2" by (rule Suc.IH)
    ultimately show ?thesis using one by simp
  qed
qed

lemma status_loop_in_range:
  assumes "status_loop v status ts j ds = (ms, res)"
  shows "messages_in_range ms"
  using assms
proof (induction ds arbitrary: j ms res)
  case Nil
  then show ?case by simp
next
  case (Cons d ds)
  show ?case
  proof (cases "d ''id''")
    case None
    with Cons.prems show ?thesis by simp
  next
    case (Some i)
    obtain ms2 r2 where rest: "status_loop v status ts (Suc j) ds = (ms2, r2)"
      by (cases "status_loop v status ts (Suc j) ds")
    from rest have "messages_in_range ms2" by (rule Cons.IH)
    moreover from Cons.prems Some rest have "ms = publish_device_status v i status (ts j) # ms2"
      by simp
    ultimately show ?thesis
      using farm_id_in_range [of v]
      by (simp add: messages_in_range_def publish_device_status_def)
  qed
qed

section \<open>Sample runs\<close>

lemma connect_accepting_broker:
  "connect v accepting_broker (init_state t0) = Some (True, (init_state t0)\<lparr>connected := True\<rparr>)"
  by (simp add: connect_def accepting_broker_def wait_loop.simps on_connect_def)

lemma sample_run_stops:
  "\<exists>tr. run_simulation Simulator accepting_broker steady_run (init_state 0)
          (main_devices Simulator) 1 0 = Some (Stopped, tr) \<and> length tr = 18"
  by (simp add: run_simulation_def connect_accepting_broker main_devices_def steady_run_def
      tick_def device_step_def dispatch_def)

text \<open>
  C1. Every field of every message that a run hands to the broker is within its
  declared physical range: humidity from 30 to 95, soil moisture from 20 to 70, pH
  from 5.5 to 7.5, light intensity at least 0. This holds for every roster, every
  number of ticks, every object the run starts from, every clock and every draw.
\<close>

theorem readings_within_physical_range:
  assumes "run_simulation v e r s devices n k = Some (res, trace)"
  shows "messages_in_range trace"
proof (cases "connect v e s")
  case None
  with assms show ?thesis by (simp add: run_simulation_def)
next
  case (Some p)
  obtain b s0 where p: "p = (b, s0)" by (cases p)
  show ?thesis
  proof (cases b)
    case False
    with assms Some p show ?thesis by (simp add: run_simulation_def)
  next
    case True
    obtain on r1 where on: "status_loop v ''ONLINE'' (online_stamp r) 0 devices = (on, r1)"
      by (cases "status_loop v ''ONLINE'' (online_stamp r) 0 devices")
    obtain s1 ms r2 where ms: "ticks v r s0 devices 0 n = (s1, ms, r2)"
      by (cases "ticks v r s0 devices 0 n")
    obtain s2 ms' r3 where ms': "tick v r s1 devices n k = (s2, ms', r3)"
      by (cases "tick v r s1 devices n k")
    obtain off r4 where off: "status_loop v ''OFFLINE'' (offline_stamp r) 0 devices = (off, r4)"
      by (cases "status_loop v ''OFFLINE'' (offline_stamp r) 0 devices")
    have parts: "messages_in_range on" "messages_in_range ms" "messages_in_range ms'"
      "messages_in_range off"
      using on ms ms' off
      by (auto intro: status_loop_in_range ticks_in_range tick_in_range)
    from assms Some p True on ms ms' off
    have "trace = on \<or> trace = on @ ms \<or> trace = on @ ms @ ms' \<or> trace = on @ ms @ ms' @ off"
      by (auto simp: run_simulation_def split: option.splits)
    with parts show ?thesis by auto
  qed
qed

theorem readings_within_physical_range_witness:
  "\<exists>tr. run_simulation Simulator accepting_broker steady_run (init_state 0)
          (main_devices Simulator) 1 0 = Some (Stopped, tr) \<and> length tr = 18 \<and>
        messages_in_range tr"
proof -
  obtain tr where tr:
    "run_simulation Simulator accepting_broker steady_run (init_state 0)
       (main_devices Simulator) 1 0 = Some (Stopped, tr)" "length tr = 18"
    using sample_run_stops by blast
  from readings_within_physical_range [OF tr(1)] have "messages_in_range tr" .
  with tr show ?thesis by blast
qed

section \<open>The objects a run can hold\<close>

lemma clamp_between:
  assumes "num_val lo \<le> num_val hi"
  shows "num_val lo \<le> num_val (py_max lo (py_min hi x)) \<and>
         num_val (py_max lo (py_min hi x)) \<le> num_val hi"
  using clamp_lower [of lo "py_min hi x"] clamp_upper [OF assms, of x] by simp

lemma state_inv_init: "state_inv (init_state t0)"
  by (simp add: state_inv_def init_state_def)

lemma state_inv_dht22: "state_inv s \<Longrightarrow> state_inv (fst (simulate_dht22 v s i inp))"
  by (simp add: simulate_dht22_def Let_def)

lemma state_inv_soil_moisture:
  "state_inv s \<Longrightarrow> state_inv (fst (simulate_soil_moisture v s i inp))"
  using clamp_between [of "PyInt 20" "PyInt 70"]
  by (simp add: simulate_soil_moisture_def Let_def state_inv_def)

lemma state_inv_light_sensor:
  "state_inv s \<Longrightarrow> state_inv (fst (simulate_light_sensor v s i inp))"
  using clamp_lower [of "PyInt 0"]
  by (simp add: simulate_light_sensor_def Let_def state_inv_def)

lemma state_inv_ph_sensor:
  "state_inv s \<Longrightarrow> state_inv (fst (simulate_ph_sensor v s i inp))"
  using clamp_between [of "PyFloat (11 / 2)" "PyFloat (15 / 2)"]
  by (simp add: simulate_ph_sensor_def Let_def state_inv_def)

lemma state_inv_dispatch:
  assumes "dispatch v t = Some f" "state_inv s"
  shows "state_inv (fst (f s i inp))"
  using assms
  by (auto simp: dispatch_def state_inv_dht22 state_inv_soil_moisture state_inv_light_sensor
      state_inv_ph_sensor split: if_splits)

lemma state_inv_device_step:
  assumes "device_step v s d inp = Inr (s', ms)" "state_inv s"
  shows "state_inv s'"
  using assms
  by (cases v) (auto simp: device_step_def state_inv_dispatch split: option.splits)

lemma state_inv_connect:
  assumes "connect v e s = Some (b, s')" "state_inv s"
  shows "state_inv s'"
  using assms
  by (auto simp: connect_def state_inv_def split: if_splits option.splits)

lemma reachable_state_inv: "reachable v s \<Longrightarrow> state_inv s"
proof (induction rule: reachable.induct)
  case (reach_init t0)
  show ?case by (rule state_inv_init)
next
  case (reach_connect s e b s')
  then show ?case by (auto intro: state_inv_connect)
next
  case (reach_step s d inp s' ms)
  then show ?case by (auto intro: state_inv_device_step)
qed

lemma uniform_range:
  assumes "a \<le> b" "unit_draw u"
  shows "a \<le> uniform a b u" "uniform a b u \<le> b"
proof -
  from assms have "0 \<le> (b - a) * u" by (simp add: unit_draw_def)
  then show "a \<le> uniform a b u" by (simp add: uniform_def)
  from assms have "(b - a) * u \<le> (b - a) * 1"
    by (intro mult_left_mono) (simp_all add: unit_draw_def)
  then show "uniform a b u \<le> b" by (simp add: uniform_def)
qed

section \<open>Soil moisture\<close>

lemma sum_list_upt_indicator:
  "sum_list (map (\<lambda>k. if k < m then (c::real) else 0) [0..<n]) = c * real (min m n)"
proof (induction n)
  case 0
  show ?case by simp
next
  case (Suc n)
  have "min m (Suc n) = (if n < m then Suc (min m n) else min m n)"
    by (simp add: min_def)
  with Suc show ?case by (simp add: algebra_simps)
qed

lemma fiftieth_ceiling: "(50 * k < n) = (k < (n + 49) div 50)" for k n :: nat
proof -
  have "(k < (n + 49) div 50) = (Suc k \<le> (n + 49) div 50)" by (simp add: Suc_le_eq)
  also have "\<dots> = (Suc k * 50 \<le> n + 49)" by (simp add: less_eq_div_iff_mult_less_eq)
  also have "\<dots> = (50 * k < n)" by auto
  finally show ?thesis by simp
qed

lemma probability_equally_likely_below:
  assumes "0 < n"
  shows "probability (equally_likely n) (\<lambda>u. u < 1 / 50) = real ((n + 49) div 50) / real n"
proof -
  have ev: "(real k / real n < 1 / 50) = (k < (n + 49) div 50)" for k
  proof -
    have "(real k / real n < 1 / 50) = (real (50 * k) < real n)"
      using assms by (simp add: field_simps)
    also have "\<dots> = (50 * k < n)" by (simp only: of_nat_less_iff)
    also have "\<dots> = (k < (n + 49) div 50)" by (rule fiftieth_ceiling)
    finally show ?thesis .
  qed
  have ev2: "(real k * 50 < real n) = (k < (n + 49) div 50)" for k
    using ev [of k] assms by (simp add: field_simps)
  have "\<not> 50 * n < n" using assms by simp
  then have le: "(n + 49) div 50 \<le> n" by (simp add: fiftieth_ceiling)
  have "map (\<lambda>(w, u). w * (if u < 1 / 50 then 1 else 0)) (equally_likely n)
          = map (\<lambda>k. if k < (n + 49) div 50 then 1 / real n else 0) [0..<n]"
    by (simp add: equally_likely_def ev2)
  then have "probability (equally_likely n) (\<lambda>u. u < 1 / 50)
          = sum_list (map (\<lambda>k. if k < (n + 49) div 50 then 1 / real n else 0) [0..<n])"
    by (simp only: probability_def expectation_def)
  also have "\<dots> = 1 / real n * real (min ((n + 49) div 50) n)"
    by (rule sum_list_upt_indicator)
  also have "\<dots> = real ((n + 49) div 50) / real n" using le by (simp add: min_def)
  finally show ?thesis .
qed

lemma irrigation_probability:
  assumes "0 < n"
  shows "1 / 50 \<le> probability (equally_likely n) (\<lambda>u. u < 1 / 50)"
    and "probability (equally_likely n) (\<lambda>u. u < 1 / 50) < 1 / 50 + 1 / real n"
    and "50 dvd n \<Longrightarrow> probability (equally_likely n) (\<lambda>u. u < 1 / 50) = 1 / 50"
proof -
  define m where "m = (n + 49) div 50"
  have p: "probability (equally_likely n) (\<lambda>u. u < 1 / 50) = real m / real n"
    unfolding m_def using assms by (rule probability_equally_likely_below)
  have "\<not> 50 * m < n" by (simp add: fiftieth_ceiling m_def)
  then have "n \<le> 50 * m" by simp
  then have "real n \<le> real (50 * m)" by (simp only: of_nat_le_iff)
  then show "1 / 50 \<le> probability (equally_likely n) (\<lambda>u. u < 1 / 50)"
    unfolding p using assms by (simp add: field_simps)
  have "50 * m < n + 50"
  proof (cases m)
    case 0
    then show ?thesis by simp
  next
    case (Suc m')
    then have "m' < (n + 49) div 50" by (simp add: m_def)
    then have "50 * m' < n" by (simp only: fiftieth_ceiling)
    with Suc show ?thesis by simp
  qed
  then have "real (50 * m) < real (n + 50)" by (simp only: of_nat_less_iff)
  then show "probability (equally_likely n) (\<lambda>u. u < 1 / 50) < 1 / 50 + 1 / real n"
    unfolding p using assms by (simp add: field_simps)
  assume "50 dvd n"
  then obtain q where "n = 50 * q" by (rule dvdE)
  then have "50 * m = n" by (simp add: m_def)
  then have "real (50 * m) = real n" by (simp only:)
  then show "probability (equally_likely n) (\<lambda>u. u < 1 / 50) = 1 / 50"
    unfolding p using assms by (simp add: field_simps)
qed

lemma distribution_equally_likely:
  assumes "0 < n"
  shows "distribution (equally_likely n)"
proof -
  have "sum_list (map fst (equally_likely n)) = 1"
    using assms by (simp add: equally_likely_def comp_def sum_list_triv)
  moreover have "list_all (\<lambda>(w, u). 0 \<le> w \<and> unit_draw u) (equally_likely n)"
    by (simp add: equally_likely_def list_all_iff unit_draw_def)
  ultimately show ?thesis by (simp add: distribution_def)
qed

lemma published_soil_moisture:
  "published (snd (simulate_soil_moisture v s i inp)) ''soilMoisture''
     = num_val (py_round2 (soil_moisture (fst (simulate_soil_moisture v s i inp))))"
  by (cases v) (simp_all add: simulate_soil_moisture_def Let_def published_def farm_id_def)

lemma simulate_soil_moisture_clamps:
  "num_val (soil_moisture (fst (simulate_soil_moisture v s i inp)))
     = max 20 (min 70 (soil_moisture_unclamped s inp))"
  by (simp add: simulate_soil_moisture_def Let_def py_max_def py_min_def)

text \<open>
  C2, as amended. A soil-moisture tick is one call of \<open>simulate_soil_moisture\<close>, from
  an object a run can hold. The call subtracts a decay from 0.05 to 0.15 and tests the
  second draw of \<open>random.random()\<close> against 0.02. When the draw is not below 0.02, no
  irrigation event fires and the new soil moisture is the decayed value clamped from
  below at 20, hence at most the previous value. When the draw is below 0.02, an
  irrigation event fires: the value before clamping is the decayed value plus a jump
  from 15 to 25, so it exceeds the previous value by an amount from 14.85 to 24.95, and
  the new soil moisture is that value clamped from above at 70. The reading publishes
  the new soil moisture rounded to two decimals. The event has probability 0.02 per
  tick: for a draw that takes the \<open>n\<close> multiples of \<open>1/n\<close> below 1 with equal weights,
  the probability is at least 0.02 and less than \<open>0.02 + 1/n\<close>, and it is 0.02 when 50
  divides \<open>n\<close>.
\<close>

theorem soil_moisture_tick:
  assumes "reachable v s" "unit_draw (rand inp 0)" "unit_draw (rand inp 2)"
  shows
    "1 / 20 \<le> uniform (1 / 20) (3 / 20) (rand inp 0) \<and>
     uniform (1 / 20) (3 / 20) (rand inp 0) \<le> 3 / 20 \<and>
     15 \<le> uniform 15 25 (rand inp 2) \<and> uniform 15 25 (rand inp 2) \<le> 25 \<and>
     (\<not> rand inp 1 < 1 / 50 \<longrightarrow>
        \<not> irrigation_fires inp \<and>
        soil_moisture_unclamped s inp
          = num_val (soil_moisture s) - uniform (1 / 20) (3 / 20) (rand inp 0) \<and>
        num_val (soil_moisture (fst (simulate_soil_moisture v s i inp)))
          = max 20 (num_val (soil_moisture s) - uniform (1 / 20) (3 / 20) (rand inp 0)) \<and>
        num_val (soil_moisture (fst (simulate_soil_moisture v s i inp)))
          \<le> num_val (soil_moisture s)) \<and>
     (rand inp 1 < 1 / 50 \<longrightarrow>
        irrigation_fires inp \<and>
        soil_moisture_unclamped s inp
          = num_val (soil_moisture s) - uniform (1 / 20) (3 / 20) (rand inp 0)
            + uniform 15 25 (rand inp 2) \<and>
        num_val (soil_moisture (fst (simulate_soil_moisture v s i inp)))
          = min 70 (num_val (soil_moisture s) - uniform (1 / 20) (3 / 20) (rand inp 0)
                    + uniform 15 25 (rand inp 2)) \<and>
        297 / 20 \<le> soil_moisture_unclamped s inp - num_val (soil_moisture s) \<and>
        soil_moisture_unclamped s inp - num_val (soil_moisture s) \<le> 499 / 20) \<and>
     published (snd (simulate_soil_moisture v s i inp)) ''soilMoisture''
       = num_val (py_round2 (soil_moisture (fst (simulate_soil_moisture v s i inp)))) \<and>
     (0 < n \<longrightarrow>
        1 / 50 \<le> probability (equally_likely n)
                   (\<lambda>u. irrigation_fires (inp\<lparr>rand := (rand inp)(1 := u)\<rparr>)) \<and>
        probability (equally_likely n)
          (\<lambda>u. irrigation_fires (inp\<lparr>rand := (rand inp)(1 := u)\<rparr>)) < 1 / 50 + 1 / real n) \<and>
     (0 < n \<and> 50 dvd n \<longrightarrow>
        probability (equally_likely n)
          (\<lambda>u. irrigation_fires (inp\<lparr>rand := (rand inp)(1 := u)\<rparr>)) = 1 / 50)"
proof -
  define old where "old = num_val (soil_moisture s)"
  define d where "d = uniform (1 / 20) (3 / 20) (rand inp 0)"
  define j where "j = uniform 15 25 (rand inp 2)"
  define new where "new = num_val (soil_moisture (fst (simulate_soil_moisture v s i inp)))"
  from assms(1) have "state_inv s" by (rule reachable_state_inv)
  then have old: "20 \<le> old" "old \<le> 70" by (simp_all add: state_inv_def old_def)
  have d: "1 / 20 \<le> d" "d \<le> 3 / 20"
    unfolding d_def using uniform_range [of "1 / 20" "3 / 20", OF _ assms(2)] by simp_all
  have j: "15 \<le> j" "j \<le> 25"
    unfolding j_def using uniform_range [of 15 25, OF _ assms(3)] by simp_all
  have new: "new = max 20 (min 70 (soil_moisture_unclamped s inp))"
    unfolding new_def by (rule simulate_soil_moisture_clamps)
  have dry: "\<not> irrigation_fires inp \<and> soil_moisture_unclamped s inp = old - d \<and>
      new = max 20 (old - d) \<and> new \<le> old"
    if "\<not> rand inp 1 < 1 / 50"
  proof -
    from that have f: "\<not> irrigation_fires inp" by (simp add: irrigation_fires_def)
    then have u: "soil_moisture_unclamped s inp = old - d"
      by (simp add: soil_moisture_unclamped_def soil_moisture_decayed_def old_def d_def)
    from old d have "new = max 20 (old - d)" unfolding new u by simp
    moreover from this old d have "new \<le> old" by simp
    ultimately show ?thesis using f u by simp
  qed
  have wet: "irrigation_fires inp \<and> soil_moisture_unclamped s inp = old - d + j \<and>
      new = min 70 (old - d + j) \<and>
      297 / 20 \<le> soil_moisture_unclamped s inp - old \<and>
      soil_moisture_unclamped s inp - old \<le> 499 / 20"
    if "rand inp 1 < 1 / 50"
  proof -
    from that have f: "irrigation_fires inp" by (simp add: irrigation_fires_def)
    then have u: "soil_moisture_unclamped s inp = old - d + j"
      by (simp add: soil_moisture_unclamped_def soil_moisture_decayed_def old_def d_def j_def)
    from old d j have "new = min 70 (old - d + j)" unfolding new u by simp
    moreover from d j have "297 / 20 \<le> old - d + j - old" "old - d + j - old \<le> 499 / 20"
      by simp_all
    ultimately show ?thesis using f u by simp
  qed
  have ev: "(\<lambda>u. irrigation_fires (inp\<lparr>rand := (rand inp)(1 := u)\<rparr>)) = (\<lambda>u. u < 1 / 50)"
    by (simp add: irrigation_fires_def)
  have prob: "1 / 50 \<le> probability (equally_likely n)
                   (\<lambda>u. irrigation_fires (inp\<lparr>rand := (rand inp)(1 := u)\<rparr>)) \<and>
        probability (equally_likely n)
          (\<lambda>u. irrigation_fires (inp\<lparr>rand := (rand inp)(1 := u)\<rparr>)) < 1 / 50 + 1 / real n"
    if "0 < n"
    unfolding ev using irrigation_probability(1,2) [OF that] by simp
  have exact: "probability (equally_likely n)
          (\<lambda>u. irrigation_fires (inp\<lparr>rand := (rand inp)(1 := u)\<rparr>)) = 1 / 50"
    if "0 < n \<and> 50 dvd n"
    unfolding ev using irrigation_probability(3) [of n] that by simp
  from d j dry wet prob exact published_soil_moisture [of v s i inp]
  show ?thesis
    unfolding old_def d_def j_def new_def by blast
qed

theorem soil_moisture_tick_witness:
  "reachable Simulator (init_state 0) \<and>
   unit_draw (rand (constant_inputs 0 (1 / 2)) 0) \<and> unit_draw (rand (constant_inputs 0 (1 / 2)) 2) \<and>
   unit_draw (rand irrigating_inputs 0) \<and> unit_draw (rand irrigating_inputs 2) \<and>
   \<not> rand (constant_inputs 0 (1 / 2)) 1 < 1 / 50 \<and> rand irrigating_inputs 1 < 1 / 50 \<and>
   num_val (soil_moisture (fst (simulate_soil_moisture Simulator (init_state 0) ''SOIL-001''
      (constant_inputs 0 (1 / 2))))) = 499 / 10 \<and>
   num_val (soil_moisture (fst (simulate_soil_moisture Simulator (init_state 0) ''SOIL-001''
      irrigating_inputs))) = 649 / 10 \<and>
   soil_moisture_unclamped (init_state 0) irrigating_inputs = 649 / 10 \<and>
   probability (equally_likely 100)
     (\<lambda>u. irrigation_fires (irrigating_inputs\<lparr>rand := (rand irrigating_inputs)(1 := u)\<rparr>))
     = 1 / 50"
proof -
  have r: "reachable Simulator (init_state 0)" by (rule reach_init)
  have u: "unit_draw (rand (constant_inputs 0 (1 / 2)) 0)"
    "unit_draw (rand (constant_inputs 0 (1 / 2)) 2)"
    "unit_draw (rand irrigating_inputs 0)" "unit_draw (rand irrigating_inputs 2)"
    by (simp_all add: unit_draw_def constant_inputs_def irrigating_inputs_def)
  have t: "\<not> rand (constant_inputs 0 (1 / 2)) 1 < 1 / 50" "rand irrigating_inputs 1 < 1 / 50"
    by (simp_all add: constant_inputs_def irrigating_inputs_def)
  have n: "0 < (100::nat) \<and> 50 dvd (100::nat)" by simp
  note dry = soil_moisture_tick [OF r u(1,2), of "''SOIL-001''" 100]
  note wet = soil_moisture_tick [OF r u(3,4), of "''SOIL-001''" 100]
  from dry t(1) have "num_val (soil_moisture (fst (simulate_soil_moisture Simulator
      (init_state 0) ''SOIL-001'' (constant_inputs 0 (1 / 2)))))
      = max 20 (num_val (soil_moisture (init_state 0))
          - uniform (1 / 20) (3 / 20) (rand (constant_inputs 0 (1 / 2)) 0))"
    by blast
  then have a: "num_val (soil_moisture (fst (simulate_soil_moisture Simulator
      (init_state 0) ''SOIL-001'' (constant_inputs 0 (1 / 2))))) = 499 / 10"
    by (simp add: init_state_def constant_inputs_def uniform_def)
  from wet t(2) have "num_val (soil_moisture (fst (simulate_soil_moisture Simulator
      (init_state 0) ''SOIL-001'' irrigating_inputs)))
      = min 70 (num_val (soil_moisture (init_state 0))
          - uniform (1 / 20) (3 / 20) (rand irrigating_inputs 0)
          + uniform 15 25 (rand irrigating_inputs 2))"
    and "soil_moisture_unclamped (init_state 0) irrigating_inputs
      = num_val (soil_moisture (init_state 0))
          - uniform (1 / 20) (3 / 20) (rand irrigating_inputs 0)
          + uniform 15 25 (rand irrigating_inputs 2)"
    by blast+
  then have b: "num_val (soil_moisture (fst (simulate_soil_moisture Simulator
      (init_state 0) ''SOIL-001'' irrigating_inputs))) = 649 / 10"
    "soil_moisture_unclamped (init_state 0) irrigating_inputs = 649 / 10"
    by (simp_all add: init_state_def irrigating_inputs_def uniform_def)
  from wet n have c: "probability (equally_likely 100)
     (\<lambda>u. irrigation_fires (irrigating_inputs\<lparr>rand := (rand irrigating_inputs)(1 := u)\<rparr>))
     = 1 / 50"
    by blast
  from r u t a b c show ?thesis by simp
qed

text \<open>
  The claim as it stands fails: with the draws 1/2 for the decay, 0 for the irrigation
  test and 0 for the jump, an irrigation event fires on the object of \<open>__init__\<close>; the
  value before clamping is 64.9, which the call stores, and it is 14.9 above the
  previous value 50, not an amount from 15 to 25.
\<close>

theorem soil_moisture_jump_counterexample:
  "reachable Simulator (init_state 0) \<and>
   unit_draw (rand irrigating_inputs 0) \<and> unit_draw (rand irrigating_inputs 1) \<and>
   unit_draw (rand irrigating_inputs 2) \<and>
   irrigation_fires irrigating_inputs \<and>
   soil_moisture (fst (simulate_soil_moisture Simulator (init_state 0) ''SOIL-001''
      irrigating_inputs)) = PyFloat (649 / 10) \<and>
   soil_moisture_unclamped (init_state 0) irrigating_inputs
     - num_val (soil_moisture (init_state 0)) = 149 / 10 \<and>
   \<not> (15 \<le> soil_moisture_unclamped (init_state 0) irrigating_inputs
             - num_val (soil_moisture (init_state 0)) \<and>
       soil_moisture_unclamped (init_state 0) irrigating_inputs
             - num_val (soil_moisture (init_state 0)) \<le> 25)"
  using reach_init [of Simulator 0]
  by (simp add: unit_draw_def irrigation_fires_def soil_moisture_unclamped_def
      soil_moisture_decayed_def uniform_def init_state_def irrigating_inputs_def
      simulate_soil_moisture_def Let_def py_max_def py_min_def)

section \<open>The DHT22 reading\<close>

text \<open>
  C9. \<open>simulate_dht22\<close> returns the object as it received it, so none of
  \<open>base_temperature\<close>, \<open>base_humidity\<close>, \<open>soil_moisture\<close>, \<open>light_intensity\<close> and
  \<open>ph_level\<close> changes; and on two objects that runs can hold, the readings for the same
  device are equal whenever the simulated hours, the two noise draws and the timestamps
  are equal, whatever the other fields of the objects are.
\<close>

theorem simulate_dht22_frame:
  assumes "reachable v s" "reachable v s'"
    and "get_time_factor s (time_now inp) = get_time_factor s' (time_now inp')"
    and "rand inp 0 = rand inp' 0" "rand inp 1 = rand inp' 1" "stamp inp = stamp inp'"
  shows "fst (simulate_dht22 v s i inp) = s \<and>
         base_temperature (fst (simulate_dht22 v s i inp)) = base_temperature s \<and>
         base_humidity (fst (simulate_dht22 v s i inp)) = base_humidity s \<and>
         soil_moisture (fst (simulate_dht22 v s i inp)) = soil_moisture s \<and>
         light_intensity (fst (simulate_dht22 v s i inp)) = light_intensity s \<and>
         ph_level (fst (simulate_dht22 v s i inp)) = ph_level s \<and>
         snd (simulate_dht22 v s i inp) = snd (simulate_dht22 v s' i inp')"
proof -
  have same: "fst (simulate_dht22 v s i inp) = s"
    by (simp add: simulate_dht22_def Let_def)
  from assms(1) have "state_inv s" by (rule reachable_state_inv)
  moreover from assms(2) have "state_inv s'" by (rule reachable_state_inv)
  ultimately have bases: "base_temperature s = base_temperature s'"
    "base_humidity s = base_humidity s'"
    by (simp_all add: state_inv_def)
  have "snd (simulate_dht22 v s i inp) = snd (simulate_dht22 v s' i inp')"
    using bases assms(3-6) by (simp add: simulate_dht22_def Let_def)
  with same show ?thesis by simp
qed

theorem simulate_dht22_frame_witness:
  "reachable Simulator (init_state 0) \<and>
   reachable Simulator (fst (simulate_soil_moisture Simulator (init_state 0) ''SOIL-001''
      (constant_inputs 0 (1 / 2)))) \<and>
   soil_moisture (fst (simulate_soil_moisture Simulator (init_state 0) ''SOIL-001''
      (constant_inputs 0 (1 / 2)))) \<noteq> soil_moisture (init_state 0) \<and>
   fst (simulate_dht22 Simulator (init_state 0) ''DHT22-001'' (constant_inputs 360 (1 / 2)))
     = init_state 0 \<and>
   snd (simulate_dht22 Simulator (init_state 0) ''DHT22-001'' (constant_inputs 360 (1 / 2)))
     = snd (simulate_dht22 Simulator
         (fst (simulate_soil_moisture Simulator (init_state 0) ''SOIL-001''
            (constant_inputs 0 (1 / 2))))
         ''DHT22-001'' (constant_inputs 360 (1 / 2)))"
proof -
  let ?d = "[''id'' \<mapsto> ''SOIL-001'', ''type'' \<mapsto> ''SOIL_MOISTURE'']"
  let ?s = "fst (simulate_soil_moisture Simulator (init_state 0) ''SOIL-001''
      (constant_inputs 0 (1 / 2)))"
  have r0: "reachable Simulator (init_state 0)" by (rule reach_init)
  have "device_step Simulator (init_state 0) ?d (constant_inputs 0 (1 / 2))
          = Inr (?s, [publish_sensor_data ''SOIL-001''
              (snd (simulate_soil_moisture Simulator (init_state 0) ''SOIL-001''
                 (constant_inputs 0 (1 / 2))))])"
    by (simp add: device_step_def dispatch_def)
  with r0 have r1: "reachable Simulator ?s" by (rule reach_step)
  have st: "start_time ?s = start_time (init_state 0)"
    by (simp add: simulate_soil_moisture_def Let_def)
  have hour: "get_time_factor (init_state 0) (time_now (constant_inputs 360 (1 / 2)))
                = get_time_factor ?s (time_now (constant_inputs 360 (1 / 2)))"
    by (simp add: get_time_factor_def st)
  have changed: "soil_moisture ?s \<noteq> soil_moisture (init_state 0)"
    by (simp add: simulate_soil_moisture_def Let_def soil_moisture_unclamped_def
        soil_moisture_decayed_def irrigation_fires_def constant_inputs_def uniform_def
        init_state_def py_max_def py_min_def)
  from simulate_dht22_frame [OF r0 r1 hour refl refl refl, of "''DHT22-001''"] r0 r1 changed
  show ?thesis by simp
qed

text \<open>
  C10. From every object a run can hold, at every clock reading and for every draw of
  the noise, the DHT22 reading carries a \<open>temperature\<close>, a float from 22 to 34.
\<close>

theorem dht22_temperature_range:
  assumes "reachable v s" "unit_draw (rand inp 0)"
  shows "\<exists>x. map_of (snd (simulate_dht22 v s i inp)) ''temperature'' = Some (JNum (PyFloat x)) \<and>
             22 \<le> x \<and> x \<le> 34"
proof -
  define h where "h = get_time_factor s (time_now inp)"
  define t where "t = 28 + 5 * sin ((h - 6) * pi / 12) + uniform (- 1) 1 (rand inp 0)"
  from assms(1) have "state_inv s" by (rule reachable_state_inv)
  then have base: "num_val (base_temperature s) = 28" by (simp add: state_inv_def)
  have field: "map_of (snd (simulate_dht22 v s i inp)) ''temperature''
                 = Some (JNum (py_round2 (PyFloat t)))"
    by (cases v) (simp_all add: simulate_dht22_def Let_def farm_id_def base t_def h_def)
  have n: "- 1 \<le> uniform (- 1) 1 (rand inp 0)" "uniform (- 1) 1 (rand inp 0) \<le> 1"
    using uniform_range [of "- 1" 1, OF _ assms(2)] by simp_all
  have "22 \<le> t"
    unfolding t_def using n(1) sin_ge_minus_one [of "(h - 6) * pi / 12"] by linarith
  then have lo: "of_int 2200 / 100 \<le> num_val (PyFloat t)" by simp
  have "t \<le> 34"
    unfolding t_def using n(2) sin_le_one [of "(h - 6) * pi / 12"] by linarith
  then have hi: "num_val (PyFloat t) \<le> of_int 3400 / 100" by simp
  define x where "x = of_int (round_half_even (t * 100)) / (100 :: real)"
  have rounded: "py_round2 (PyFloat t) = PyFloat x" by (simp add: x_def)
  from py_round2_lower [OF lo] have "22 \<le> x" by (simp add: x_def)
  moreover from py_round2_upper [OF hi] have "x \<le> 34" by (simp add: x_def)
  moreover from field have "map_of (snd (simulate_dht22 v s i inp)) ''temperature''
      = Some (JNum (PyFloat x))"
    by (simp only: rounded)
  ultimately show ?thesis by blast
qed

theorem dht22_temperature_range_witness:
  "reachable Simulator (init_state 0) \<and> unit_draw (rand (constant_inputs 360 (1 / 2)) 0) \<and>
   (\<exists>x. map_of (snd (simulate_dht22 Simulator (init_state 0) ''DHT22-001''
            (constant_inputs 360 (1 / 2)))) ''temperature'' = Some (JNum (PyFloat x)) \<and>
        22 \<le> x \<and> x \<le> 34)"
proof -
  have r0: "reachable Simulator (init_state 0)" by (rule reach_init)
  have u: "unit_draw (rand (constant_inputs 360 (1 / 2)) 0)"
    by (simp add: unit_draw_def constant_inputs_def)
  from dht22_temperature_range [OF r0 u, of "''DHT22-001''"] r0 u show ?thesis by blast
qed

section \<open>The field of the pH reading\<close>

text \<open>In \<open>sensor_simulator1.py\<close> the pH reading carries its measurement, a float, under
  \<open>soilPH\<close>.\<close>

lemma clamp_float: "\<exists>x. py_max (PyFloat a) (py_min (PyFloat b) (PyFloat c)) = PyFloat x"
  by (simp add: py_max_def py_min_def)

lemma round_clamp_float:
  "\<exists>x. py_round2 (py_max (PyFloat a) (py_min (PyFloat b) (PyFloat c))) = PyFloat x"
proof -
  obtain y where "py_max (PyFloat a) (py_min (PyFloat b) (PyFloat c)) = PyFloat y"
    using clamp_float by blast
  then have "py_round2 (py_max (PyFloat a) (py_min (PyFloat b) (PyFloat c)))
      = PyFloat (of_int (round_half_even (y * 100)) / 100)"
    by simp
  then show ?thesis by blast
qed

lemma simulate_ph_sensor1_soilPH:
  "\<exists>x. map_of (snd (simulate_ph_sensor Simulator1 s i inp)) ''soilPH'' = Some (JNum (PyFloat x))"
proof -
  obtain x where "py_round2 (py_max (PyFloat (11 / 2)) (py_min (PyFloat (15 / 2))
      (PyFloat (num_val (ph_level s) + uniform (- (1 / 50)) (1 / 50) (rand inp 0))))) = PyFloat x"
    using round_clamp_float by blast
  then have "map_of (snd (simulate_ph_sensor Simulator1 s i inp)) ''soilPH'' = Some (JNum (PyFloat x))"
    by (simp add: simulate_ph_sensor_def Let_def)
  then show ?thesis by blast
qed

text \<open>
  C3. In \<open>sensor_simulator.py\<close> it does not: the pH reading of the device \<open>PH-001\<close> of
  \<open>main\<close>, on the object of \<open>__init__\<close> and with the draw 1/2, has no field \<open>soilPH\<close>; the
  measurement 6.5 is under \<open>ph\<close>.
\<close>

theorem simulate_ph_sensor_field_name:
  "map_of (snd (simulate_ph_sensor Simulator (init_state 0) ''PH-001''
      (constant_inputs 0 (1 / 2)))) ''soilPH'' = None \<and>
   map_of (snd (simulate_ph_sensor Simulator (init_state 0) ''PH-001''
      (constant_inputs 0 (1 / 2)))) ''ph'' = Some (JNum (PyFloat (13 / 2)))"
  by (simp add: simulate_ph_sensor_def Let_def py_max_def py_min_def init_state_def
      constant_inputs_def uniform_def round_half_even_def)

section \<open>Light at noon and at midnight\<close>

lemma weighted_lower:
  assumes "list_all (\<lambda>(w, u). 0 \<le> w \<and> unit_draw u) ps" "\<And>u. unit_draw u \<Longrightarrow> c \<le> f u"
  shows "(c::real) * sum_list (map fst ps) \<le> sum_list (map (\<lambda>(w, u). w * f u) ps)"
  using assms(1)
proof (induction ps)
  case Nil
  show ?case by simp
next
  case (Cons p ps)
  obtain w u where p: "p = (w, u)" by (cases p)
  from Cons.prems p have w: "0 \<le> w" and u: "unit_draw u"
    and rest: "list_all (\<lambda>(w, u). 0 \<le> w \<and> unit_draw u) ps"
    by simp_all
  from assms(2) [OF u] w have "w * c \<le> w * f u" by (rule mult_left_mono)
  moreover from rest have "c * sum_list (map fst ps) \<le> sum_list (map (\<lambda>(w, u). w * f u) ps)"
    by (rule Cons.IH)
  ultimately show ?case by (simp add: p algebra_simps)
qed

lemma weighted_upper:
  assumes "list_all (\<lambda>(w, u). 0 \<le> w \<and> unit_draw u) ps" "\<And>u. unit_draw u \<Longrightarrow> f u \<le> c"
  shows "sum_list (map (\<lambda>(w, u). w * f u) ps) \<le> (c::real) * sum_list (map fst ps)"
  using assms(1)
proof (induction ps)
  case Nil
  show ?case by simp
next
  case (Cons p ps)
  obtain w u where p: "p = (w, u)" by (cases p)
  from Cons.prems p have w: "0 \<le> w" and u: "unit_draw u"
    and rest: "list_all (\<lambda>(w, u). 0 \<le> w \<and> unit_draw u) ps"
    by simp_all
  from assms(2) [OF u] w have "w * f u \<le> w * c" by (rule mult_left_mono)
  moreover from rest have "sum_list (map (\<lambda>(w, u). w * f u) ps) \<le> c * sum_list (map fst ps)"
    by (rule Cons.IH)
  ultimately show ?case by (simp add: p algebra_simps)
qed

lemma expectation_lower:
  assumes "distribution ps" "\<And>u. unit_draw u \<Longrightarrow> c \<le> f u"
  shows "c \<le> expectation ps f"
  using weighted_lower [of ps c f] assms by (simp add: distribution_def expectation_def)

lemma expectation_upper:
  assumes "distribution ps" "\<And>u. unit_draw u \<Longrightarrow> f u \<le> c"
  shows "expectation ps f \<le> c"
  using weighted_upper [of ps f c] assms by (simp add: distribution_def expectation_def)

lemma published_light:
  "published (snd (simulate_light_sensor v s i inp)) ''lightIntensity''
     = num_val (py_round2 (light_intensity (fst (simulate_light_sensor v s i inp))))"
  by (cases v) (simp_all add: simulate_light_sensor_def Let_def published_def farm_id_def)

lemma light_at_noon:
  assumes "get_time_factor s (time_now inp) = 12" "unit_draw (rand inp 0)"
  shows "48000 \<le> published (snd (simulate_light_sensor v s i inp)) ''lightIntensity''"
proof -
  define l where "l = 50000 + uniform (- 2000) 2000 (rand inp 0)"
  have "sin ((12 - 6) * pi / 12) = (1::real)" by simp
  then have st: "light_intensity (fst (simulate_light_sensor v s i inp))
                   = py_max (PyInt 0) (PyFloat l)"
    using assms(1) by (simp add: simulate_light_sensor_def Let_def l_def)
  have "- 2000 \<le> uniform (- 2000) 2000 (rand inp 0)"
    using uniform_range [of "- 2000" 2000, OF _ assms(2)] by simp
  then have "48000 \<le> l" by (simp add: l_def)
  then have "of_int 4800000 / 100 \<le> num_val (py_max (PyInt 0) (PyFloat l))"
    by (simp add: py_max_def)
  from py_round2_lower [OF this] show ?thesis by (simp add: published_light st)
qed

lemma light_at_midnight:
  assumes "get_time_factor s (time_now inp) = 0" "unit_draw (rand inp 0)"
  shows "published (snd (simulate_light_sensor v s i inp)) ''lightIntensity'' \<le> 100"
proof -
  define l where "l = uniform 0 100 (rand inp 0)"
  have st: "light_intensity (fst (simulate_light_sensor v s i inp))
              = py_max (PyInt 0) (PyFloat l)"
    using assms(1) by (simp add: simulate_light_sensor_def Let_def l_def)
  have "l \<le> 100" unfolding l_def using uniform_range [of 0 100, OF _ assms(2)] by simp
  then have "num_val (py_max (PyInt 0) (PyFloat l)) \<le> of_int 10000 / 100"
    by (simp add: py_max_def)
  from py_round2_upper [OF this] show ?thesis by (simp add: published_light st)
qed

text \<open>
  C4. Whatever the distributions of the noise draws, the expected value of the
  published light intensity at simulated hour 12 is greater than the expected value
  of the published light intensity at simulated hour 0: every reading at noon is at
  least 48000 and every reading at midnight is at most 100.
\<close>

theorem light_noon_exceeds_midnight:
  assumes "distribution P" "distribution Q"
    and "get_time_factor s12 (time_now inp12) = 12" "get_time_factor s0 (time_now inp0) = 0"
  shows "expectation Q (\<lambda>u. published (snd (simulate_light_sensor v s0 i0
             (inp0\<lparr>rand := (\<lambda>j. u)\<rparr>))) ''lightIntensity'')
         < expectation P (\<lambda>u. published (snd (simulate_light_sensor v s12 i12
             (inp12\<lparr>rand := (\<lambda>j. u)\<rparr>))) ''lightIntensity'')"
proof -
  have "expectation Q (\<lambda>u. published (snd (simulate_light_sensor v s0 i0
             (inp0\<lparr>rand := (\<lambda>j. u)\<rparr>))) ''lightIntensity'') \<le> 100"
    using assms(2)
  proof (rule expectation_upper)
    fix u :: real
    assume "unit_draw u"
    with assms(4) show "published (snd (simulate_light_sensor v s0 i0
             (inp0\<lparr>rand := (\<lambda>j. u)\<rparr>))) ''lightIntensity'' \<le> 100"
      by (intro light_at_midnight) simp_all
  qed
  moreover have "48000 \<le> expectation P (\<lambda>u. published (snd (simulate_light_sensor v s12 i12
             (inp12\<lparr>rand := (\<lambda>j. u)\<rparr>))) ''lightIntensity'')"
    using assms(1)
  proof (rule expectation_lower)
    fix u :: real
    assume "unit_draw u"
    with assms(3) show "48000 \<le> published (snd (simulate_light_sensor v s12 i12
             (inp12\<lparr>rand := (\<lambda>j. u)\<rparr>))) ''lightIntensity''"
      by (intro light_at_noon) simp_all
  qed
  ultimately show ?thesis by linarith
qed

theorem light_noon_exceeds_midnight_witness:
  "distribution [(1 / 2, 0), (1 / 2, 1 / 2)] \<and>
   get_time_factor (init_state 0) (time_now (constant_inputs 720 0)) = 12 \<and>
   get_time_factor (init_state 0) (time_now (constant_inputs 0 0)) = 0 \<and>
   expectation [(1 / 2, 0), (1 / 2, 1 / 2)]
     (\<lambda>u. published (snd (simulate_light_sensor Simulator (init_state 0) ''LIGHT-001''
        ((constant_inputs 0 0)\<lparr>rand := (\<lambda>j. u)\<rparr>))) ''lightIntensity'')
   < expectation [(1 / 2, 0), (1 / 2, 1 / 2)]
     (\<lambda>u. published (snd (simulate_light_sensor Simulator (init_state 0) ''LIGHT-001''
        ((constant_inputs 720 0)\<lparr>rand := (\<lambda>j. u)\<rparr>))) ''lightIntensity'')"
proof -
  have d: "distribution [(1 / 2, 0), (1 / 2, 1 / 2)]"
    by (simp add: distribution_def unit_draw_def)
  have h12: "get_time_factor (init_state 0) (time_now (constant_inputs 720 0)) = 12"
    by (simp add: get_time_factor_def py_fmod_def init_state_def constant_inputs_def)
  have h0: "get_time_factor (init_state 0) (time_now (constant_inputs 0 0)) = 0"
    by (simp add: get_time_factor_def py_fmod_def init_state_def constant_inputs_def)
  from light_noon_exceeds_midnight [OF d d h12 h0, of Simulator "''LIGHT-001''" "''LIGHT-001''"]
    d h12 h0
  show ?thesis by blast
qed

section \<open>Status messages\<close>

lemma status_ids_append [simp]:
  "status_ids st (xs @ ys) = status_ids st xs @ status_ids st ys"
  by (simp add: status_ids_def)

lemma status_ids_Nil [simp]: "status_ids st [] = []"
  by (simp add: status_ids_def)

lemma status_ids_device_status:
  "status_ids st' [publish_device_status v i st ts] = (if st' = st then [Some (JStr i)] else [])"
  by (cases v) (auto simp: status_ids_def publish_device_status_def farm_id_def)

lemma status_loop_ids:
  assumes "status_loop v st ts j ds = (ms, None)"
  shows "status_ids st' ms = (if st' = st then roster_ids ds else [])"
  using assms
proof (induction ds arbitrary: j ms)
  case Nil
  then show ?case by (simp add: roster_ids_def)
next
  case (Cons d ds)
  show ?case
  proof (cases "d ''id''")
    case None
    with Cons.prems show ?thesis by simp
  next
    case (Some i)
    obtain ms2 r2 where rest: "status_loop v st ts (Suc j) ds = (ms2, r2)"
      by (cases "status_loop v st ts (Suc j) ds")
    from Cons.prems Some rest have ms: "ms = [publish_device_status v i st (ts j)] @ ms2"
      and r2: "r2 = None"
      by simp_all
    from rest r2 have "status_ids st' ms2 = (if st' = st then roster_ids ds else [])"
      by (simp add: Cons.IH)
    then show ?thesis
      unfolding ms status_ids_append status_ids_device_status
      by (simp add: roster_ids_def Some)
  qed
qed

lemma status_loop_has_ids:
  assumes "status_loop v st ts j ds = (ms, None)"
  shows "list_all (\<lambda>d. d ''id'' \<noteq> None) ds"
  using assms
proof (induction ds arbitrary: j ms)
  case Nil
  show ?case by simp
next
  case (Cons d ds)
  show ?case
  proof (cases "d ''id''")
    case None
    with Cons.prems show ?thesis by simp
  next
    case (Some i)
    obtain ms2 r2 where rest: "status_loop v st ts (Suc j) ds = (ms2, r2)"
      by (cases "status_loop v st ts (Suc j) ds")
    from Cons.prems Some rest have "r2 = None" by simp
    with rest have "status_loop v st ts (Suc j) ds = (ms2, None)" by simp
    then have "list_all (\<lambda>d. d ''id'' \<noteq> None) ds" by (rule Cons.IH)
    with Some show ?thesis by simp
  qed
qed

lemma dispatch_no_status:
  assumes "dispatch v t = Some f"
  shows "map_of (snd (f s i inp)) ''status'' = None"
  using assms
  by (cases v)
     (auto simp: dispatch_def simulate_dht22_def simulate_soil_moisture_def
        simulate_light_sensor_def simulate_ph_sensor_def Let_def farm_id_def split: if_splits)

lemma device_step_no_status:
  assumes "device_step v s d inp = Inr (s', ms)"
  shows "status_ids st ms = []"
  using assms
  by (cases v)
     (auto simp: device_step_def status_ids_def publish_sensor_data_def dispatch_no_status
        split: option.splits)

lemma device_loop_no_status:
  assumes "device_loop v s xs = (s', ms, res)"
  shows "status_ids st ms = []"
  using assms
proof (induction xs arbitrary: s s' ms res)
  case Nil
  then show ?case by simp
next
  case (Cons x xs)
  obtain d inp where x: "x = (d, inp)" by (cases x)
  show ?case
  proof (cases "device_step v s d inp")
    case (Inl err)
    with Cons.prems x show ?thesis by simp
  next
    case (Inr p)
    obtain s1 ms1 where p: "p = (s1, ms1)" by (cases p)
    obtain s2 ms2 r2 where rest: "device_loop v s1 xs = (s2, ms2, r2)"
      by (cases "device_loop v s1 xs")
    from Cons.prems x Inr p rest have ms: "ms = ms1 @ ms2" by simp
    from Inr p have "status_ids st ms1 = []" by (simp add: device_step_no_status)
    moreover from rest have "status_ids st ms2 = []" by (rule Cons.IH)
    ultimately show ?thesis using ms by simp
  qed
qed

lemma tick_no_status:
  assumes "tick v r s devices i k = (s', ms, res)"
  shows "status_ids st ms = []"
  using assms unfolding tick_def by (rule device_loop_no_status)

lemma ticks_no_status:
  assumes "ticks v r s devices i n = (s', ms, res)"
  shows "status_ids st ms = []"
  using assms
proof (induction n arbitrary: s i s' ms res)
  case 0
  then show ?case by simp
next
  case (Suc n)
  obtain s1 ms1 r1 where t: "tick v r s devices i (length devices) = (s1, ms1, r1)"
    by (cases "tick v r s devices i (length devices)")
  then have one: "status_ids st ms1 = []" by (rule tick_no_status)
  show ?case
  proof (cases r1)
    case (Some err)
    with Suc.prems t one show ?thesis by simp
  next
    case None
    obtain s2 ms2 r2 where rest: "ticks v r s1 devices (Suc i) n = (s2, ms2, r2)"
      by (cases "ticks v r s1 devices (Suc i) n")
    from Suc.prems t None rest have "ms = ms1 @ ms2" by simp
    moreover from rest have "status_ids st ms2 = []" by (rule Suc.IH)
    ultimately show ?thesis using one by simp
  qed
qed

text \<open>How a run that the interrupt stops is put together.\<close>

lemma run_simulation_stopped:
  assumes "run_simulation v e r s devices n k = Some (Stopped, trace)"
  obtains s0 on s1 ms s2 ms' off where
    "connect v e s = Some (True, s0)"
    "status_loop v ''ONLINE'' (online_stamp r) 0 devices = (on, None)"
    "ticks v r s0 devices 0 n = (s1, ms, None)"
    "tick v r s1 devices n k = (s2, ms', None)"
    "status_loop v ''OFFLINE'' (offline_stamp r) 0 devices = (off, None)"
    "trace = on @ ms @ ms' @ off"
  using assms
  by (auto simp: run_simulation_def split: option.splits bool.splits prod.splits)

text \<open>
  C6. In a run that the interrupt stops, after any number of whole ticks and any number
  of device steps of the next one, the OFFLINE status messages of the trace are one per
  device of the roster, in the order of the roster and with its identifiers; so are the
  ONLINE status messages, hence the two multisets of identifiers are equal.
\<close>

theorem offline_status_matches_online:
  assumes "run_simulation v e r s devices n k = Some (Stopped, trace)"
  shows "status_ids ''OFFLINE'' trace = roster_ids devices \<and>
         status_ids ''ONLINE'' trace = roster_ids devices \<and>
         length (status_ids ''OFFLINE'' trace) = length devices \<and>
         None \<notin> set (status_ids ''OFFLINE'' trace) \<and>
         mset (status_ids ''OFFLINE'' trace) = mset (status_ids ''ONLINE'' trace)"
proof -
  from assms obtain s0 on s1 ms s2 ms' off where
    on: "status_loop v ''ONLINE'' (online_stamp r) 0 devices = (on, None)" and
    ms: "ticks v r s0 devices 0 n = (s1, ms, None)" and
    ms': "tick v r s1 devices n k = (s2, ms', None)" and
    off: "status_loop v ''OFFLINE'' (offline_stamp r) 0 devices = (off, None)" and
    trace: "trace = on @ ms @ ms' @ off"
    by (rule run_simulation_stopped)
  have data: "status_ids st ms = []" "status_ids st ms' = []" for st
    using ms ms' by (auto intro: ticks_no_status tick_no_status)
  have offline: "status_ids ''OFFLINE'' trace = roster_ids devices"
    unfolding trace by (simp add: data status_loop_ids [OF on] status_loop_ids [OF off])
  have online: "status_ids ''ONLINE'' trace = roster_ids devices"
    unfolding trace by (simp add: data status_loop_ids [OF on] status_loop_ids [OF off])
  from status_loop_has_ids [OF on] have "None \<notin> set (roster_ids devices)"
    by (auto simp: roster_ids_def list_all_iff)
  with offline online show ?thesis by (simp add: roster_ids_def)
qed

theorem offline_status_matches_online_witness:
  "\<exists>tr. run_simulation Simulator accepting_broker steady_run (init_state 0)
          (main_devices Simulator) 1 0 = Some (Stopped, tr) \<and>
        status_ids ''OFFLINE'' tr
          = [Some (JStr ''DHT22-001''), Some (JStr ''DHT22-002''), Some (JStr ''SOIL-001''),
             Some (JStr ''SOIL-002''), Some (JStr ''LIGHT-001''), Some (JStr ''PH-001'')] \<and>
        status_ids ''ONLINE'' tr = status_ids ''OFFLINE'' tr"
proof -
  obtain tr where tr:
    "run_simulation Simulator accepting_broker steady_run (init_state 0)
       (main_devices Simulator) 1 0 = Some (Stopped, tr)"
    using sample_run_stops by blast
  from offline_status_matches_online [OF tr]
  have "status_ids ''OFFLINE'' tr = roster_ids (main_devices Simulator)"
    "status_ids ''ONLINE'' tr = roster_ids (main_devices Simulator)"
    by simp_all
  moreover have "roster_ids (main_devices Simulator)
      = [Some (JStr ''DHT22-001''), Some (JStr ''DHT22-002''), Some (JStr ''SOIL-001''),
         Some (JStr ''SOIL-002''), Some (JStr ''LIGHT-001''), Some (JStr ''PH-001'')]"
    by (simp add: roster_ids_def main_devices_def)
  ultimately show ?thesis using tr by auto
qed

section \<open>Devices of an unknown kind\<close>

lemma device_loop_skip:
  assumes "\<And>s. device_step v s d inp = Inr (s, [])"
  shows "device_loop v s (xs @ (d, inp) # ys) = device_loop v s (xs @ ys)"
proof (induction xs arbitrary: s)
  case Nil
  show ?case by (simp add: assms split: prod.splits)
next
  case (Cons x xs)
  obtain d' inp' where x: "x = (d', inp')" by (cases x)
  show ?case by (simp add: x Cons.IH split: sum.splits)
qed

text \<open>
  C7. A device whose \<open>type\<close> is none of DHT22, SOIL_MOISTURE, LIGHT and PH leaves the
  object as it is and publishes nothing, and the loop over the devices of a tick gives
  the same object, the same messages and the same end with the device as without it.
  The device carries an \<open>id\<close>, as every device of a roster does once the ONLINE loop
  has gone through (lemma \<open>status_loop_has_ids\<close>).
\<close>

theorem unknown_kind_skipped:
  assumes "d ''type'' = Some t" "t \<notin> {''DHT22'', ''SOIL_MOISTURE'', ''LIGHT'', ''PH''}"
    and "d ''id'' = Some i"
  shows "device_step v s d inp = Inr (s, []) \<and>
         device_loop v s (xs @ (d, inp) # ys) = device_loop v s (xs @ ys)"
proof -
  from assms(2) have none: "dispatch v t = None" by (simp add: dispatch_def)
  have step: "device_step v s' d inp = Inr (s', [])" for s'
    using assms(1,3) none by (cases v) (simp_all add: device_step_def)
  from step device_loop_skip [of v d inp s xs ys, OF step] show ?thesis by simp
qed

theorem unknown_kind_skipped_witness:
  "[''id'' \<mapsto> ''CO2-001'', ''type'' \<mapsto> ''CO2''] ''type'' = Some ''CO2'' \<and>
   ''CO2'' \<notin> {''DHT22'', ''SOIL_MOISTURE'', ''LIGHT'', ''PH''} \<and>
   device_step Simulator (init_state 0) [''id'' \<mapsto> ''CO2-001'', ''type'' \<mapsto> ''CO2'']
     (constant_inputs 0 0) = Inr (init_state 0, []) \<and>
   device_loop Simulator (init_state 0)
     ([([''id'' \<mapsto> ''SOIL-001'', ''type'' \<mapsto> ''SOIL_MOISTURE''], constant_inputs 0 (1 / 2))] @
      ([''id'' \<mapsto> ''CO2-001'', ''type'' \<mapsto> ''CO2''], constant_inputs 0 0) #
      [([''id'' \<mapsto> ''PH-001'', ''type'' \<mapsto> ''PH''], constant_inputs 0 (1 / 2))])
   = device_loop Simulator (init_state 0)
     ([([''id'' \<mapsto> ''SOIL-001'', ''type'' \<mapsto> ''SOIL_MOISTURE''], constant_inputs 0 (1 / 2))] @
      [([''id'' \<mapsto> ''PH-001'', ''type'' \<mapsto> ''PH''], constant_inputs 0 (1 / 2))])"
proof -
  have ty: "[''id'' \<mapsto> ''CO2-001'', ''type'' \<mapsto> ''CO2''] ''type'' = Some ''CO2''" by simp
  have kind: "''CO2'' \<notin> {''DHT22'', ''SOIL_MOISTURE'', ''LIGHT'', ''PH''}" by simp
  have ident: "[''id'' \<mapsto> ''CO2-001'', ''type'' \<mapsto> ''CO2''] ''id'' = Some ''CO2-001''" by simp
  from unknown_kind_skipped [OF ty kind ident] ty kind show ?thesis by blast
qed

section \<open>Waiting for the broker\<close>








end
